theory Spec2Isabelle
  imports Main
begin

section \<open>The relational store of models/database.PY\<close>

text \<open>
  \<^verbatim>\<open>init_db\<close> creates three InnoDB tables: \<^verbatim>\<open>users\<close>, \<^verbatim>\<open>presentations\<close> and
  \<^verbatim>\<open>slides\<close>. A row is a record with one field per column. The two timestamp columns,
  which the server fills from its clock, are left out. A nullable column holds an
  option, \<open>None\<close> being SQL NULL. Column widths are not modelled: what an over-long
  value does depends on the server's \<^verbatim>\<open>sql_mode\<close>.
\<close>

record user_row =
  u_id :: nat
  u_name :: string
  u_email :: string
  u_password :: string

text \<open>The nullable columns of \<^verbatim>\<open>presentations\<close>, in the order of the CREATE TABLE.\<close>

record presentation_settings =
  p_slides_count :: "int option"
  p_output_type :: "string option"
  p_style :: "string option"
  p_theme :: "string option"
  p_language :: "string option"
  p_image_style :: "string option"
  p_text_amount :: "string option"
  p_ai_model :: "string option"

record presentation_row =
  p_id :: nat
  p_user_id :: nat
  p_title :: string
  p_prompt :: string
  p_settings :: presentation_settings

text \<open>The nullable columns of \<^verbatim>\<open>slides\<close>; the two JSON columns hold their text.\<close>

record slide_details =
  s_title :: "string option"
  s_content :: "string option"
  s_layout :: "string option"
  s_image_url :: "string option"
  s_background :: "string option"
  s_animation :: "string option"
  s_notes :: "string option"
  s_metadata :: "string option"

record slide_row =
  s_id :: nat
  s_presentation_id :: nat
  s_slide_number :: int
  s_details :: slide_details

text \<open>
  The store: the rows of each table in insertion order, and the AUTO_INCREMENT counter
  of each table. The server may use up a counter value for an INSERT that fails; the
  model keeps the counter then, and no property below reads it.
\<close>

record store =
  users :: "user_row list"
  presentations :: "presentation_row list"
  slides :: "slide_row list"
  next_user_id :: nat
  next_presentation_id :: nat
  next_slide_id :: nat

definition empty_store :: store where
  "empty_store =
     \<lparr>users = [], presentations = [], slides = [],
      next_user_id = 1, next_presentation_id = 1, next_slide_id = 1\<rparr>"

subsection \<open>Statements\<close>

text \<open>
  The parameters of an INSERT that names every column but \<^verbatim>\<open>id\<close> and the timestamps.
  Python's \<^verbatim>\<open>None\<close> is sent as NULL, so each parameter is an option.
\<close>

record user_values =
  v_name :: "string option"
  v_email :: "string option"
  v_password :: "string option"

record presentation_values =
  v_user_id :: "nat option"
  v_title :: "string option"
  v_prompt :: "string option"
  v_settings :: presentation_settings

record slide_values =
  v_presentation_id :: "nat option"
  v_slide_number :: "int option"
  v_details :: slide_details

datatype sql =
    InsertUser user_values
  | InsertPresentation presentation_values
  | InsertSlide slide_values
  | DeleteUser nat
  | DeletePresentation nat
  | DeleteSlide nat
  | SelectUserByEmail string
  | SelectPresentationsOf nat
  | SelectSlidesOf nat

text \<open>
  The errors of \<^verbatim>\<open>mysql.connector.Error\<close> that the model tells apart: three integrity
  errors raised by the constraints of the tables (1048, 1062, 1452), and two faults of
  the connection.
\<close>

datatype db_error =
    ColumnCannotBeNull
  | DuplicateEntry
  | NoReferencedRow
  | PoolError
  | ConnectionLost

datatype row = UserRow user_row | PresentationRow presentation_row | SlideRow slide_row

record exec_result =
  after :: store
  insert_id :: nat
  result_set :: "row list"

text \<open>
  \<^verbatim>\<open>email VARCHAR(255) UNIQUE NOT NULL\<close>, in a table with
  \<^verbatim>\<open>COLLATE=utf8mb4_unicode_ci\<close>: two e-mail addresses collide when the collation
  finds them equal. The collation belongs to the server; it enters as \<open>coll\<close>, the
  function that sends a string to its comparison key.
\<close>

definition insert_user :: "(string \<Rightarrow> string) \<Rightarrow> user_values \<Rightarrow> store \<Rightarrow> db_error + exec_result" where
  "insert_user coll v db =
     (case (v_name v, v_email v, v_password v) of
        (Some n, Some e, Some pw) \<Rightarrow>
          if next_user_id db \<in> set (map u_id (users db)) then Inl DuplicateEntry
          else if coll e \<in> set (map (\<lambda>u. coll (u_email u)) (users db)) then Inl DuplicateEntry
          else Inr \<lparr>after = db\<lparr>users := users db @
                                 [\<lparr>u_id = next_user_id db, u_name = n, u_email = e, u_password = pw\<rparr>],
                               next_user_id := next_user_id db + 1\<rparr>,
                    insert_id = next_user_id db, result_set = []\<rparr>
      | _ \<Rightarrow> Inl ColumnCannotBeNull)"

text \<open>\<^verbatim>\<open>FOREIGN KEY (user_id) REFERENCES users(id)\<close>: the owner must exist.\<close>

definition insert_presentation :: "presentation_values \<Rightarrow> store \<Rightarrow> db_error + exec_result" where
  "insert_presentation v db =
     (case (v_user_id v, v_title v, v_prompt v) of
        (Some uid, Some t, Some pr) \<Rightarrow>
          if next_presentation_id db \<in> set (map p_id (presentations db)) then Inl DuplicateEntry
          else if uid \<notin> set (map u_id (users db)) then Inl NoReferencedRow
          else Inr \<lparr>after = db\<lparr>presentations := presentations db @
                                 [\<lparr>p_id = next_presentation_id db, p_user_id = uid, p_title = t,
                                   p_prompt = pr, p_settings = v_settings v\<rparr>],
                               next_presentation_id := next_presentation_id db + 1\<rparr>,
                    insert_id = next_presentation_id db, result_set = []\<rparr>
      | _ \<Rightarrow> Inl ColumnCannotBeNull)"

text \<open>
  \<^verbatim>\<open>slide_number INT NOT NULL\<close> with \<^verbatim>\<open>INDEX idx_slide_number (slide_number)\<close>: the number
  must be present, and the index is not a unique one, so any number is stored.
\<close>

definition insert_slide :: "slide_values \<Rightarrow> store \<Rightarrow> db_error + exec_result" where
  "insert_slide v db =
     (case (v_presentation_id v, v_slide_number v) of
        (Some pid, Some n) \<Rightarrow>
          if next_slide_id db \<in> set (map s_id (slides db)) then Inl DuplicateEntry
          else if pid \<notin> set (map p_id (presentations db)) then Inl NoReferencedRow
          else Inr \<lparr>after = db\<lparr>slides := slides db @
                                 [\<lparr>s_id = next_slide_id db, s_presentation_id = pid,
                                   s_slide_number = n, s_details = v_details v\<rparr>],
                               next_slide_id := next_slide_id db + 1\<rparr>,
                    insert_id = next_slide_id db, result_set = []\<rparr>
      | _ \<Rightarrow> Inl ColumnCannotBeNull)"

text \<open>
  \<^verbatim>\<open>ON DELETE CASCADE\<close> on both foreign keys: deleting a presentation deletes the
  slides that reference it, and deleting a user deletes the presentations that
  reference the user, each with its slides.
\<close>

definition delete_presentations :: "(presentation_row \<Rightarrow> bool) \<Rightarrow> store \<Rightarrow> store" where
  "delete_presentations doomed db =
     (let gone = map p_id (filter doomed (presentations db))
      in db\<lparr>presentations := filter (\<lambda>p. \<not> doomed p) (presentations db),
            slides := filter (\<lambda>s. s_presentation_id s \<notin> set gone) (slides db)\<rparr>)"

definition delete_user :: "nat \<Rightarrow> store \<Rightarrow> store" where
  "delete_user uid db =
     (delete_presentations (\<lambda>p. p_user_id p = uid) db)
       \<lparr>users := filter (\<lambda>u. u_id u \<noteq> uid) (users db)\<rparr>"

definition delete_presentation :: "nat \<Rightarrow> store \<Rightarrow> store" where
  "delete_presentation pid db = delete_presentations (\<lambda>p. p_id p = pid) db"

definition delete_slide :: "nat \<Rightarrow> store \<Rightarrow> store" where
  "delete_slide sid db = db\<lparr>slides := filter (\<lambda>s. s_id s \<noteq> sid) (slides db)\<rparr>"

definition unchanged :: "store \<Rightarrow> row list \<Rightarrow> exec_result" where
  "unchanged db rows = \<lparr>after = db, insert_id = 0, result_set = rows\<rparr>"

fun run_sql :: "(string \<Rightarrow> string) \<Rightarrow> sql \<Rightarrow> store \<Rightarrow> db_error + exec_result" where
  "run_sql coll (InsertUser v) db = insert_user coll v db"
| "run_sql coll (InsertPresentation v) db = insert_presentation v db"
| "run_sql coll (InsertSlide v) db = insert_slide v db"
| "run_sql coll (DeleteUser uid) db = Inr (unchanged (delete_user uid db) [])"
| "run_sql coll (DeletePresentation pid) db = Inr (unchanged (delete_presentation pid db) [])"
| "run_sql coll (DeleteSlide sid) db = Inr (unchanged (delete_slide sid db) [])"
| "run_sql coll (SelectUserByEmail e) db =
     Inr (unchanged db (map UserRow (filter (\<lambda>u. coll (u_email u) = coll e) (users db))))"
| "run_sql coll (SelectPresentationsOf uid) db =
     Inr (unchanged db (map PresentationRow (filter (\<lambda>p. p_user_id p = uid) (presentations db))))"
| "run_sql coll (SelectSlidesOf pid) db =
     Inr (unchanged db (map SlideRow (filter (\<lambda>s. s_presentation_id s = pid) (slides db))))"

subsection \<open>execute_query\<close>

text \<open>
  \<^verbatim>\<open>execute_query(query, params=None, fetch=False)\<close> takes a connection from the pool,
  opens a cursor, executes one statement and either fetches its rows or commits. The
  calls into the connector that can raise \<^verbatim>\<open>mysql.connector.Error\<close> do so when the
  environment says so (\<open>faults\<close>), and \<^verbatim>\<open>cursor.execute\<close> also when the statement
  violates a constraint. What the connector makes of \<^verbatim>\<open>fetchall\<close> after a statement
  without rows, or of \<^verbatim>\<open>commit\<close> with rows left unread, is among these faults.
  \<^verbatim>\<open>rollback\<close> and the two \<^verbatim>\<open>close\<close> calls do not raise in the model, a commit that
  raises has committed nothing, and no exception other than \<^verbatim>\<open>mysql.connector.Error\<close>
  occurs. Each call into the connector is recorded in \<open>calls\<close>.

  The pool is configured with \<^verbatim>\<open>'autocommit': False\<close>: the effect of an executed
  statement is \<open>pending\<close> until the commit, and is dropped by a rollback or by closing
  the connection.
\<close>

datatype handle = Unset | Opened | Closed

datatype call =
  CreatePool | GetConnection | Cursor | Execute | Fetchall | Commit | Rollback | CursorClose | ConnClose

record faults =
  on_create_pool :: "db_error option"
  on_get_connection :: "db_error option"
  on_cursor :: "db_error option"
  on_execute :: "db_error option"
  on_fetchall :: "db_error option"
  on_commit :: "db_error option"

record session =
  connection_pool :: bool
  committed :: store
  pending :: "store option"
  conn :: handle
  cursor :: handle
  calls :: "call list"

datatype query_result = Rows "row list" | LastRowId nat

definition called :: "call \<Rightarrow> session \<Rightarrow> session" where
  "called c s = s\<lparr>calls := calls s @ [c]\<rparr>"

text \<open>
  \<^verbatim>\<open>get_connection()\<close>: the module keeps the pool in the global \<^verbatim>\<open>connection_pool\<close>
  and creates it on the first call; then it asks the pool for a connection. Either
  step can raise.
\<close>

definition pool_get_connection :: "faults \<Rightarrow> session \<Rightarrow> db_error option \<times> session" where
  "pool_get_connection f s =
     (case on_get_connection f of
        Some err \<Rightarrow> (Some err, called GetConnection s)
      | None \<Rightarrow> (None, (called GetConnection s)\<lparr>conn := Opened\<rparr>))"

definition get_connection :: "faults \<Rightarrow> session \<Rightarrow> db_error option \<times> session" where
  "get_connection f s =
     (if \<not> connection_pool s then
        (case on_create_pool f of
           Some err \<Rightarrow> (Some err, called CreatePool s)
         | None \<Rightarrow> pool_get_connection f ((called CreatePool s)\<lparr>connection_pool := True\<rparr>))
      else pool_get_connection f s)"

definition open_cursor :: "faults \<Rightarrow> session \<Rightarrow> db_error option \<times> session" where
  "open_cursor f s =
     (case on_cursor f of
        Some err \<Rightarrow> (Some err, called Cursor s)
      | None \<Rightarrow> (None, (called Cursor s)\<lparr>cursor := Opened\<rparr>))"

definition cursor_execute ::
  "(string \<Rightarrow> string) \<Rightarrow> faults \<Rightarrow> sql \<Rightarrow> session \<Rightarrow> (db_error + exec_result) \<times> session" where
  "cursor_execute coll f query s =
     (case on_execute f of
        Some err \<Rightarrow> (Inl err, called Execute s)
      | None \<Rightarrow>
         (case run_sql coll query (case pending s of None \<Rightarrow> committed s | Some w \<Rightarrow> w) of
            Inl err \<Rightarrow> (Inl err, called Execute s)
          | Inr res \<Rightarrow> (Inr res, (called Execute s)\<lparr>pending := Some (after res)\<rparr>)))"

definition fetchall :: "faults \<Rightarrow> exec_result \<Rightarrow> session \<Rightarrow> (db_error + row list) \<times> session" where
  "fetchall f res s =
     (case on_fetchall f of
        Some err \<Rightarrow> (Inl err, called Fetchall s)
      | None \<Rightarrow> (Inr (result_set res), called Fetchall s))"

definition commit :: "faults \<Rightarrow> session \<Rightarrow> db_error option \<times> session" where
  "commit f s =
     (case on_commit f of
        Some err \<Rightarrow> (Some err, called Commit s)
      | None \<Rightarrow>
         (None, (called Commit s)
                  \<lparr>committed := (case pending s of None \<Rightarrow> committed s | Some w \<Rightarrow> w),
                   pending := None\<rparr>))"

definition rollback :: "session \<Rightarrow> session" where
  "rollback s = (called Rollback s)\<lparr>pending := None\<rparr>"

definition cursor_close :: "session \<Rightarrow> session" where
  "cursor_close s = (called CursorClose s)\<lparr>cursor := Closed\<rparr>"

definition conn_close :: "session \<Rightarrow> session" where
  "conn_close s = (called ConnClose s)\<lparr>conn := Closed, pending := None\<rparr>"

text \<open>The body of the \<^verbatim>\<open>try\<close>: it stops at the first call that raises.\<close>

definition try_block ::
  "(string \<Rightarrow> string) \<Rightarrow> faults \<Rightarrow> sql \<Rightarrow> bool \<Rightarrow> session \<Rightarrow> (db_error + query_result) \<times> session" where
  "try_block coll f query fetch s0 =
     (case get_connection f s0 of
        (Some err, s1) \<Rightarrow> (Inl err, s1)
      | (None, s1) \<Rightarrow>
     (case open_cursor f s1 of
        (Some err, s2) \<Rightarrow> (Inl err, s2)
      | (None, s2) \<Rightarrow>
     (case cursor_execute coll f query s2 of
        (Inl err, s3) \<Rightarrow> (Inl err, s3)
      | (Inr res, s3) \<Rightarrow>
         if fetch then
           (case fetchall f res s3 of
              (Inl err, s4) \<Rightarrow> (Inl err, s4)
            | (Inr rows, s4) \<Rightarrow> (Inr (Rows rows), s4))
         else
           (case commit f s3 of
              (Some err, s4) \<Rightarrow> (Inl err, s4)
            | (None, s4) \<Rightarrow> (Inr (LastRowId (insert_id res)), s4)))))"

text \<open>
  \<^verbatim>\<open>except mysql.connector.Error\<close>: roll back if there is a connection, and raise
  again. \<^verbatim>\<open>finally\<close>: close the cursor if there is one, then the connection if there
  is one.
\<close>

definition except_block :: "(db_error + query_result) \<Rightarrow> session \<Rightarrow> session" where
  "except_block r s =
     (case r of
        Inl err \<Rightarrow> if conn s \<noteq> Unset then rollback s else s
      | Inr _ \<Rightarrow> s)"

definition finally_block :: "session \<Rightarrow> session" where
  "finally_block s =
     (let s1 = (if cursor s \<noteq> Unset then cursor_close s else s)
      in if conn s1 \<noteq> Unset then conn_close s1 else s1)"

definition new_session :: "bool \<Rightarrow> store \<Rightarrow> session" where
  "new_session pool db =
     \<lparr>connection_pool = pool, committed = db, pending = None, conn = Unset, cursor = Unset,
      calls = []\<rparr>"

definition execute_query ::
  "(string \<Rightarrow> string) \<Rightarrow> faults \<Rightarrow> sql \<Rightarrow> bool \<Rightarrow> bool \<Rightarrow> store
     \<Rightarrow> (db_error + query_result) \<times> session" where
  "execute_query coll f query fetch pool db =
     (case try_block coll f query fetch (new_session pool db) of
        (r, s) \<Rightarrow> (r, finally_block (except_block r s)))"

definition no_faults :: faults where
  "no_faults = \<lparr>on_create_pool = None, on_get_connection = None, on_cursor = None, on_execute = None,
                on_fetchall = None, on_commit = None\<rparr>"

subsection \<open>Storing a generated presentation\<close>

text \<open>
  Modelled from the spec: the persistence step of the generate route
  (routes/presentations.py is not among the sources). Section 4.1: on success the
  presentation and its slides are persisted in one logically atomic step. Section 7: a
  persistence error leaves no partial rows. Section 3: the slides take the positions
  1, 2, ... in their order. The step is written with the calls of models/database.PY
  in the order in which \<^verbatim>\<open>execute_query\<close> makes them: one connection from
  \<^verbatim>\<open>get_connection\<close>, one cursor, the INSERT of the presentation, one INSERT for each
  slide with the id of the presentation, and one commit; a rollback when a call
  raises, and cursor and connection closed at the end. The environment can make the
  INSERT of each slide raise by itself: \<open>on_slide i\<close> is the fault at slide \<open>i\<close>.
\<close>

text \<open>
  Modelled from the spec: the INSERTs of the slides in the missing persistence step,
  on the open cursor, slide \<open>i\<close> first.
\<close>

fun insert_slides ::
  "(string \<Rightarrow> string) \<Rightarrow> faults \<Rightarrow> (nat \<Rightarrow> db_error option) \<Rightarrow> nat \<Rightarrow> nat \<Rightarrow> slide_details list
     \<Rightarrow> session \<Rightarrow> db_error option \<times> session" where
  "insert_slides coll f on_slide pid i [] s = (None, s)"
| "insert_slides coll f on_slide pid i (d # ds) s =
     (case cursor_execute coll (f\<lparr>on_execute := on_slide i\<rparr>)
             (InsertSlide \<lparr>v_presentation_id = Some pid, v_slide_number = Some (int i),
                           v_details = d\<rparr>) s of
        (Inl err, s1) \<Rightarrow> (Some err, s1)
      | (Inr res, s1) \<Rightarrow> insert_slides coll f on_slide pid (Suc i) ds s1)"

text \<open>
  Modelled from the spec: the body of the missing persistence step, up to its one
  commit; it returns the id of the new presentation.
\<close>

definition save_try ::
  "(string \<Rightarrow> string) \<Rightarrow> faults \<Rightarrow> (nat \<Rightarrow> db_error option) \<Rightarrow> presentation_values
     \<Rightarrow> slide_details list \<Rightarrow> session \<Rightarrow> (db_error + query_result) \<times> session" where
  "save_try coll f on_slide pv details s0 =
     (case get_connection f s0 of
        (Some err, s1) \<Rightarrow> (Inl err, s1)
      | (None, s1) \<Rightarrow>
     (case open_cursor f s1 of
        (Some err, s2) \<Rightarrow> (Inl err, s2)
      | (None, s2) \<Rightarrow>
     (case cursor_execute coll f (InsertPresentation pv) s2 of
        (Inl err, s3) \<Rightarrow> (Inl err, s3)
      | (Inr res, s3) \<Rightarrow>
     (case insert_slides coll f on_slide (insert_id res) 1 details s3 of
        (Some err, s4) \<Rightarrow> (Inl err, s4)
      | (None, s4) \<Rightarrow>
     (case commit f s4 of
        (Some err, s5) \<Rightarrow> (Inl err, s5)
      | (None, s5) \<Rightarrow> (Inr (LastRowId (insert_id res)), s5))))))"

text \<open>
  Modelled from the spec: the missing persistence step as a whole, with the
  \<^verbatim>\<open>except\<close> and \<^verbatim>\<open>finally\<close> blocks of \<^verbatim>\<open>execute_query\<close>.
\<close>

definition save_presentation ::
  "(string \<Rightarrow> string) \<Rightarrow> faults \<Rightarrow> (nat \<Rightarrow> db_error option) \<Rightarrow> presentation_values
     \<Rightarrow> slide_details list \<Rightarrow> bool \<Rightarrow> store \<Rightarrow> (db_error + query_result) \<times> session" where
  "save_presentation coll f on_slide pv details pool db =
     (case save_try coll f on_slide pv details (new_session pool db) of
        (r, s) \<Rightarrow> (r, finally_block (except_block r s)))"

text \<open>The store as the open transaction of a session sees it.\<close>

definition in_transaction :: "session \<Rightarrow> store" where
  "in_transaction s = (case pending s of None \<Rightarrow> committed s | Some w \<Rightarrow> w)"

subsection \<open>Stores that the statements can produce\<close>

text \<open>
  \<^verbatim>\<open>init_db\<close> creates the tables empty; afterwards a store changes only through
  statements that succeed.
\<close>

inductive reachable :: "(string \<Rightarrow> string) \<Rightarrow> store \<Rightarrow> bool" for coll :: "string \<Rightarrow> string" where
  created: "reachable coll empty_store"
| executed: "reachable coll db \<Longrightarrow> run_sql coll q db = Inr res \<Longrightarrow> reachable coll (after res)"

subsection \<open>Ordinal positions of slides\<close>

text \<open>
  The slide numbers stored for a presentation, in table order, and the property that
  they are unique and run from 1 without a gap.
\<close>

definition slide_numbers :: "store \<Rightarrow> nat \<Rightarrow> int list" where
  "slide_numbers db pid = map s_slide_number (filter (\<lambda>s. s_presentation_id s = pid) (slides db))"

definition numbered_from_one :: "int list \<Rightarrow> bool" where
  "numbered_from_one ns = (distinct ns \<and> set ns = {1 .. int (length ns)})"

definition ordinals_ok :: "store \<Rightarrow> bool" where
  "ordinals_ok db =
     (\<forall>pid \<in> set (map s_presentation_id (slides db)). numbered_from_one (slide_numbers db pid))"

text \<open>
  The statements that keep the numbering: an INSERT into \<^verbatim>\<open>slides\<close> that takes the
  position after the last one, and every statement that leaves single slides alone.
\<close>

fun keeps_numbering :: "store \<Rightarrow> sql \<Rightarrow> bool" where
  "keeps_numbering db (InsertSlide v) =
     (case v_presentation_id v of
        None \<Rightarrow> True
      | Some pid \<Rightarrow> v_slide_number v = Some (int (length (slide_numbers db pid)) + 1))"
| "keeps_numbering db (DeleteSlide sid) = False"
| "keeps_numbering db q = True"

section \<open>The presentations table of database/schema.sql\<close>


subsection \<open>Owner-only access\<close>











section \<open>The generation orchestrator\<close>

text \<open>
  Modelled from the spec: \<^verbatim>\<open>generate_slides\<close> of services/ai_service.py, which is not
  among the sources; CONTRIBUTING.md holds its docstring and a test. Section 4.1: the
  slide count must lie in 3..20 and the prompt must not be empty; the instruction goes
  to a primary backend, and when that call fails or returns malformed output, to a
  secondary one before failure is surfaced. Sections 4.1 and 8: the result has the
  requested length, or the request fails explicitly; an answer of another length is
  treated like malformed output. The docstring names the two errors. The enumerated sets of
  language, theme and style and their defaults are not given, so these options travel
  as they are. A backend is a function of the request; its answer is a failed call, or
  text that is (\<open>Some\<close>) or is not (\<open>None\<close>) a JSON list of objects. An object is the
  list of its fields.
\<close>

record generation_request =
  prompt :: string
  slides_count :: int
  language :: "string option"
  theme :: "string option"
  style :: "string option"
  text_amount :: "string option"
  ai_model :: "string option"

type_synonym slide_object = "(string \<times> string) list"

datatype reply = CallFailed | Output "slide_object list option"

datatype provider = Primary | Secondary

datatype generation_error = ValueError | APIError

text \<open>
  Modelled from the spec: a slide object of the missing \<^verbatim>\<open>generate_slides\<close> has at
  least a title field and a content field (section 4.1).
\<close>

definition well_formed_slide :: "slide_object \<Rightarrow> bool" where
  "well_formed_slide obj = (map_of obj ''title'' \<noteq> None \<and> map_of obj ''content'' \<noteq> None)"

text \<open>
  Modelled from the spec: the missing parsing step of \<^verbatim>\<open>generate_slides\<close>; a failed
  call and malformed output give nothing, and output that is well formed and of the
  requested length gives all of its slides (sections 4.1 and 8).
\<close>

fun normalise :: "generation_request \<Rightarrow> reply \<Rightarrow> slide_object list option" where
  "normalise r CallFailed = None"
| "normalise r (Output None) = None"
| "normalise r (Output (Some objs)) =
     (if list_all well_formed_slide objs \<and> int (length objs) = slides_count r
      then Some objs else None)"

text \<open>
  Modelled from the spec: the missing input validation of \<^verbatim>\<open>generate_slides\<close>
  (section 4.1: slide count within 3..20, prompt not empty).
\<close>

definition valid_request :: "generation_request \<Rightarrow> bool" where
  "valid_request r = (3 \<le> slides_count r \<and> slides_count r \<le> 20 \<and> prompt r \<noteq> [])"

text \<open>
  Modelled from the spec: the missing \<^verbatim>\<open>generate_slides\<close> (sections 4.1 and 7). The
  second component of the result lists the backends that were called, in order.
\<close>

definition generate_slides ::
  "(generation_request \<Rightarrow> reply) \<Rightarrow> (generation_request \<Rightarrow> reply) \<Rightarrow> generation_request
     \<Rightarrow> (generation_error + slide_object list) \<times> provider list" where
  "generate_slides primary secondary r =
     (if \<not> valid_request r then (Inl ValueError, [])
      else case normalise r (primary r) of
             Some objs \<Rightarrow> (Inr objs, [Primary])
           | None \<Rightarrow>
              (case normalise r (secondary r) of
                 Some objs \<Rightarrow> (Inr objs, [Primary, Secondary])
               | None \<Rightarrow> (Inl APIError, [Primary, Secondary])))"

section \<open>Sample data\<close>

text \<open>
  Two accounts, one presentation each, one slide each, as the statements of the model
  build them; the store after a duplicate slide number; two slides to store, and two
  scripts of faults for their INSERTs.
\<close>

definition alice_values :: user_values where
  "alice_values = \<lparr>v_name = Some ''Alice'', v_email = Some ''alice@example.com'', v_password = Some ''hash''\<rparr>"

definition alice_store :: store where
  "alice_store =
     \<lparr>users = [\<lparr>u_id = 1, u_name = ''Alice'', u_email = ''alice@example.com'', u_password = ''hash''\<rparr>],
      presentations = [], slides = [],
      next_user_id = 2, next_presentation_id = 1, next_slide_id = 1\<rparr>"

definition no_settings :: presentation_settings where
  "no_settings = \<lparr>p_slides_count = None, p_output_type = None, p_style = None, p_theme = None,
                  p_language = None, p_image_style = None, p_text_amount = None, p_ai_model = None\<rparr>"

definition no_details :: slide_details where
  "no_details = \<lparr>s_title = None, s_content = None, s_layout = None, s_image_url = None,
                 s_background = None, s_animation = None, s_notes = None, s_metadata = None\<rparr>"

definition climate_values :: presentation_values where
  "climate_values = \<lparr>v_user_id = Some 1, v_title = Some ''Climate Change'',
                      v_prompt = Some ''Climate Change'', v_settings = no_settings\<rparr>"

definition climate_store :: store where
  "climate_store =
     \<lparr>users = [\<lparr>u_id = 1, u_name = ''Alice'', u_email = ''alice@example.com'', u_password = ''hash''\<rparr>,
               \<lparr>u_id = 2, u_name = ''Bob'', u_email = ''bob@example.com'', u_password = ''hash''\<rparr>],
      presentations = [\<lparr>p_id = 1, p_user_id = 1, p_title = ''Climate Change'',
                        p_prompt = ''Climate Change'', p_settings = no_settings\<rparr>,
                       \<lparr>p_id = 2, p_user_id = 2, p_title = ''Rivers'',
                        p_prompt = ''Rivers'', p_settings = no_settings\<rparr>],
      slides = [\<lparr>s_id = 1, s_presentation_id = 1, s_slide_number = 1, s_details = no_details\<rparr>,
                \<lparr>s_id = 2, s_presentation_id = 2, s_slide_number = 1, s_details = no_details\<rparr>],
      next_user_id = 3, next_presentation_id = 3, next_slide_id = 3\<rparr>"

definition slide_values_at :: "nat \<Rightarrow> int \<Rightarrow> slide_values" where
  "slide_values_at pid n = \<lparr>v_presentation_id = Some pid, v_slide_number = Some n, v_details = no_details\<rparr>"

definition commit_lost :: faults where
  "commit_lost = no_faults\<lparr>on_commit := Some ConnectionLost\<rparr>"

definition duplicate_store :: store where
  "duplicate_store =
     climate_store\<lparr>slides := slides climate_store @
                        [\<lparr>s_id = 3, s_presentation_id = 1, s_slide_number = 1, s_details = no_details\<rparr>],
                    next_slide_id := 4\<rparr>"

definition two_details :: "slide_details list" where
  "two_details = [no_details\<lparr>s_title := Some ''Causes'', s_content := Some ''Greenhouse gases''\<rparr>,
                  no_details\<lparr>s_title := Some ''Effects'', s_content := Some ''Rising seas''\<rparr>]"

definition never :: "nat \<Rightarrow> db_error option" where
  "never i = None"

definition at_second_slide :: "nat \<Rightarrow> db_error option" where
  "at_second_slide i = (if i = 2 then Some ConnectionLost else None)"



definition climate_request :: generation_request where
  "climate_request =
     \<lparr>prompt = ''Climate Change'', slides_count = 5, language = None, theme = Some ''dialogue'',
      style = None, text_amount = None, ai_model = None\<rparr>"

definition two_slides :: "slide_object list" where
  "two_slides = [[(''title'', ''Causes''), (''content'', ''Greenhouse gases'')],
                 [(''title'', ''Effects''), (''content'', ''Rising seas'')]]"

definition short_backend :: "generation_request \<Rightarrow> reply" where
  "short_backend r = Output (Some two_slides)"

definition five_slides :: "slide_object list" where
  "five_slides = [[(''title'', ''Causes''), (''content'', ''Greenhouse gases'')],
                  [(''title'', ''Effects''), (''content'', ''Rising seas'')],
                  [(''title'', ''Evidence''), (''content'', ''Ice cores'')],
                  [(''title'', ''Responses''), (''content'', ''Renewable energy'')],
                  [(''title'', ''Outlook''), (''content'', ''Scenarios to 2100'')]]"

definition full_backend :: "generation_request \<Rightarrow> reply" where
  "full_backend r = Output (Some five_slides)"

definition down_backend :: "generation_request \<Rightarrow> reply" where
  "down_backend r = CallFailed"

section \<open>Properties of the store and of execute_query\<close>

subsection \<open>What a call leaves behind\<close>

lemmas execute_query_defs = execute_query_def try_block_def except_block_def finally_block_def
  new_session_def get_connection_def pool_get_connection_def open_cursor_def cursor_execute_def
  fetchall_def commit_def rollback_def cursor_close_def conn_close_def called_def

lemmas statement_defs = insert_user_def insert_presentation_def insert_slide_def delete_user_def
  delete_presentation_def delete_presentations_def delete_slide_def unchanged_def

lemma execute_query_raises:
  assumes "execute_query coll f q False pool db = (Inl err, s)"
  shows "committed s = db"
  using assms by (auto simp: execute_query_defs split: option.splits sum.splits if_splits)

lemma execute_query_returns:
  assumes "execute_query coll f q False pool db = (Inr v, s)"
  shows "\<exists>res. run_sql coll q db = Inr res \<and> committed s = after res \<and> v = LastRowId (insert_id res)"
  using assms by (auto simp: execute_query_defs split: option.splits sum.splits if_splits)

lemma execute_query_rejected:
  assumes "run_sql coll q db = Inl e"
  shows "\<exists>err s. execute_query coll f q False pool db = (Inl err, s) \<and> committed s = db"
  using assms by (auto simp: execute_query_defs split: option.splits sum.splits if_splits)

lemma execute_query_no_faults:
  assumes "run_sql coll q db = Inr res"
  shows "\<exists>s. execute_query coll no_faults q False pool db = (Inr (LastRowId (insert_id res)), s) \<and>
             committed s = after res"
  using assms
  by (auto simp: execute_query_defs no_faults_def split: option.splits sum.splits if_splits)

text \<open>
  C9. A call of \<^verbatim>\<open>execute_query\<close> with \<^verbatim>\<open>fetch=False\<close> ends in one of two ways. Either
  the statement ran, was committed, and the call returns \<^verbatim>\<open>cursor.lastrowid\<close>; the
  calls made are exactly connect (after creating the pool, on the first call), cursor,
  execute, commit, close cursor, close connection. Or the call raises the database error, the committed store is the one it
  started from, and a connection that was obtained has been rolled back and then
  closed. In both cases no cursor and no connection is open and no transaction is
  pending when the call returns. When \<^verbatim>\<open>get_connection\<close> itself raises there is no
  connection to roll back or close.
\<close>

theorem execute_query_commits_or_rolls_back:
  assumes "execute_query coll f query False pool db = (r, s)"
  shows "(\<exists>res. run_sql coll query db = Inr res \<and> r = Inr (LastRowId (insert_id res)) \<and>
            committed s = after res \<and> pending s = None \<and> conn s = Closed \<and> cursor s = Closed \<and>
            calls s = (if pool then [] else [CreatePool])
                        @ [GetConnection, Cursor, Execute, Commit, CursorClose, ConnClose])
       \<or> (\<exists>err. r = Inl err \<and> committed s = db \<and> pending s = None \<and>
            conn s \<noteq> Opened \<and> cursor s \<noteq> Opened \<and>
            (conn s = Closed \<longrightarrow> Rollback \<in> set (calls s) \<and> last (calls s) = ConnClose) \<and>
            (conn s = Unset \<longrightarrow> set (calls s) \<subseteq> {CreatePool, GetConnection} \<and>
               (on_create_pool f = Some err \<or> on_get_connection f = Some err)))"
  using assms
  by (auto simp: execute_query_defs split: option.splits sum.splits if_splits)

theorem execute_query_commits_or_rolls_back_witness:
  "fst (execute_query id no_faults (InsertUser alice_values) False False empty_store) = Inr (LastRowId 1) \<and>
   committed (snd (execute_query id no_faults (InsertUser alice_values) False False empty_store)) = alice_store \<and>
   conn (snd (execute_query id no_faults (InsertUser alice_values) False False empty_store)) = Closed \<and>
   cursor (snd (execute_query id no_faults (InsertUser alice_values) False False empty_store)) = Closed \<and>
   fst (execute_query id commit_lost (InsertUser alice_values) False True empty_store) = Inl ConnectionLost \<and>
   committed (snd (execute_query id commit_lost (InsertUser alice_values) False True empty_store)) = empty_store \<and>
   calls (snd (execute_query id commit_lost (InsertUser alice_values) False True empty_store))
     = [GetConnection, Cursor, Execute, Commit, Rollback, CursorClose, ConnClose]"
  using execute_query_commits_or_rolls_back
          [of id no_faults "InsertUser alice_values" False empty_store
              "fst (execute_query id no_faults (InsertUser alice_values) False False empty_store)"
              "snd (execute_query id no_faults (InsertUser alice_values) False False empty_store)"]
        execute_query_commits_or_rolls_back
          [of id commit_lost "InsertUser alice_values" True empty_store
              "fst (execute_query id commit_lost (InsertUser alice_values) False True empty_store)"
              "snd (execute_query id commit_lost (InsertUser alice_values) False True empty_store)"]
  by (simp add: execute_query_defs statement_defs alice_values_def alice_store_def empty_store_def
        no_faults_def commit_lost_def)

subsection \<open>E-mail addresses\<close>

lemma users_after:
  assumes "run_sql coll q db = Inr res"
  shows "(\<exists>v n e pw. q = InsertUser v \<and> v_email v = Some e \<and>
            coll e \<notin> set (map (\<lambda>u. coll (u_email u)) (users db)) \<and>
            users (after res)
              = users db @ [\<lparr>u_id = next_user_id db, u_name = n, u_email = e, u_password = pw\<rparr>])
       \<or> (\<exists>uid. q = DeleteUser uid \<and> users (after res) = filter (\<lambda>u. u_id u \<noteq> uid) (users db))
       \<or> users (after res) = users db"
  using assms
  by (cases q)
     (auto simp: insert_user_def insert_presentation_def insert_slide_def unchanged_def
        delete_user_def delete_presentation_def delete_presentations_def delete_slide_def Let_def
        split: option.splits if_splits)

lemma email_keys_step:
  assumes "distinct (map (\<lambda>u. coll (u_email u)) (users db))" and "run_sql coll q db = Inr res"
  shows "distinct (map (\<lambda>u. coll (u_email u)) (users (after res)))"
  using users_after[OF assms(2)] assms(1) by (auto simp: distinct_map_filter)

lemma reachable_email_keys:
  "reachable coll db \<Longrightarrow> distinct (map (\<lambda>u. coll (u_email u)) (users db))"
  by (induction rule: reachable.induct) (auto simp: empty_store_def intro: email_keys_step)

lemma insert_user_existing_email:
  assumes "u \<in> set (users db)" and "coll e = coll (u_email u)"
  shows "\<exists>err. run_sql coll (InsertUser \<lparr>v_name = n, v_email = Some e, v_password = pw\<rparr>) db = Inl err"
  using assms by (auto simp: insert_user_def split: option.splits)

text \<open>
  C10. In every store that the statements can produce from the empty tables, the rows
  of \<^verbatim>\<open>users\<close> have pairwise different e-mail addresses. An INSERT of a user whose
  e-mail address the collation finds equal to a stored one raises, through
  \<^verbatim>\<open>execute_query\<close> and whatever the environment does, and the store stays as it was.
\<close>

theorem users_email_unique:
  assumes "reachable coll db"
  shows "distinct (map u_email (users db)) \<and>
         (\<forall>u \<in> set (users db). \<forall>e. coll e = coll (u_email u) \<longrightarrow>
            (\<exists>err s. execute_query coll f (InsertUser \<lparr>v_name = n, v_email = Some e, v_password = pw\<rparr>) False pool db
                       = (Inl err, s) \<and> committed s = db))"
proof
  have "distinct (map (\<lambda>u. coll (u_email u)) (users db))"
    by (rule reachable_email_keys[OF assms])
  then show "distinct (map u_email (users db))"
    by (auto simp: distinct_map inj_on_def)
next
  show "\<forall>u \<in> set (users db). \<forall>e. coll e = coll (u_email u) \<longrightarrow>
            (\<exists>err s. execute_query coll f (InsertUser \<lparr>v_name = n, v_email = Some e, v_password = pw\<rparr>) False pool db
                       = (Inl err, s) \<and> committed s = db)"
    using insert_user_existing_email execute_query_rejected by blast
qed

theorem users_email_unique_witness:
  "reachable id alice_store \<and> distinct (map u_email (users alice_store)) \<and>
   fst (execute_query id no_faults (InsertUser alice_values) False True alice_store) = Inl DuplicateEntry \<and>
   committed (snd (execute_query id no_faults (InsertUser alice_values) False True alice_store)) = alice_store"
proof -
  have "run_sql id (InsertUser alice_values) empty_store
          = Inr \<lparr>after = alice_store, insert_id = 1, result_set = []\<rparr>"
    by (simp add: statement_defs alice_values_def alice_store_def empty_store_def)
  from reachable.executed[OF reachable.created this]
  have r: "reachable id alice_store" by simp
  show ?thesis
    using r users_email_unique[OF r, where f = no_faults and n = "Some ''Alice''"
                and pw = "Some ''hash''" and pool = True]
    by (simp add: execute_query_defs statement_defs alice_values_def alice_store_def empty_store_def no_faults_def)
qed

subsection \<open>Storing a presentation with its slides\<close>

lemma insert_slides_keeps:
  "insert_slides coll f on_slide pid i ds s = (r, s') \<Longrightarrow>
     committed s' = committed s \<and> conn s' = conn s \<and> cursor s' = cursor s \<and>
     (pending s \<noteq> None \<longrightarrow> pending s' \<noteq> None)"
proof (induction ds arbitrary: i s)
  case Nil
  then show ?case by simp
next
  case (Cons d ds)
  show ?case
  proof (cases "cursor_execute coll (f\<lparr>on_execute := on_slide i\<rparr>)
             (InsertSlide \<lparr>v_presentation_id = Some pid, v_slide_number = Some (int i),
                           v_details = d\<rparr>) s")
    case (Pair a s1)
    have step: "committed s1 = committed s \<and> conn s1 = conn s \<and> cursor s1 = cursor s \<and>
                (pending s \<noteq> None \<longrightarrow> pending s1 \<noteq> None)"
      using Pair by (auto simp: cursor_execute_def called_def split: option.splits sum.splits)
    show ?thesis
    proof (cases a)
      case (Inl err)
      then show ?thesis using Cons.prems Pair step by simp
    next
      case (Inr res)
      then have "insert_slides coll f on_slide pid (Suc i) ds s1 = (r, s')"
        using Cons.prems Pair by simp
      from Cons.IH[OF this] step show ?thesis by simp
    qed
  qed
qed

lemma insert_slides_done:
  "insert_slides coll f on_slide pid i ds s = (None, s') \<Longrightarrow>
     users (in_transaction s') = users (in_transaction s) \<and>
     presentations (in_transaction s') = presentations (in_transaction s) \<and>
     calls s' = calls s @ replicate (length ds) Execute \<and>
     (\<exists>new. slides (in_transaction s') = slides (in_transaction s) @ new \<and>
            map s_details new = ds \<and> map s_slide_number new = map int [i..<i + length ds] \<and>
            (\<forall>x \<in> set new. s_presentation_id x = pid))"
proof (induction ds arbitrary: i s)
  case Nil
  then show ?case by simp
next
  case (Cons d ds)
  obtain a s1 where ex: "cursor_execute coll (f\<lparr>on_execute := on_slide i\<rparr>)
             (InsertSlide \<lparr>v_presentation_id = Some pid, v_slide_number = Some (int i),
                           v_details = d\<rparr>) s = (a, s1)"
    by fastforce
  then obtain res where a: "a = Inr res" and rest: "insert_slides coll f on_slide pid (Suc i) ds s1 = (None, s')"
    using Cons.prems by (cases a) auto
  have run: "run_sql coll (InsertSlide \<lparr>v_presentation_id = Some pid, v_slide_number = Some (int i),
                           v_details = d\<rparr>) (in_transaction s) = Inr res"
    and s1: "pending s1 = Some (after res)" "calls s1 = calls s @ [Execute]"
    using ex a by (auto simp: cursor_execute_def called_def in_transaction_def split: option.splits sum.splits)
  have view: "in_transaction s1 = after res" using s1 by (simp add: in_transaction_def)
  have row: "users (after res) = users (in_transaction s) \<and>
             presentations (after res) = presentations (in_transaction s) \<and>
             (\<exists>x. slides (after res) = slides (in_transaction s) @ [x] \<and> s_details x = d \<and>
                   s_slide_number x = int i \<and> s_presentation_id x = pid)"
    using run by (auto simp: insert_slide_def split: if_splits)
  then obtain x where x: "slides (after res) = slides (in_transaction s) @ [x]" "s_details x = d"
      "s_slide_number x = int i" "s_presentation_id x = pid"
    by blast
  from Cons.IH[OF rest] obtain new where new:
      "slides (in_transaction s') = slides (in_transaction s1) @ new" "map s_details new = ds"
      "map s_slide_number new = map int [Suc i..<Suc i + length ds]"
      "\<forall>x \<in> set new. s_presentation_id x = pid"
    and others: "users (in_transaction s') = users (in_transaction s1)"
      "presentations (in_transaction s') = presentations (in_transaction s1)"
      "calls s' = calls s1 @ replicate (length ds) Execute"
    by blast
  have "slides (in_transaction s') = slides (in_transaction s) @ (x # new)"
    using new(1) x(1) view by simp
  moreover have "map s_details (x # new) = d # ds" using x(2) new(2) by simp
  moreover have "map s_slide_number (x # new) = map int [i..<i + length (d # ds)]"
  proof -
    have "i < i + length (d # ds)" by simp
    from upt_conv_Cons[OF this]
    have "[i..<i + length (d # ds)] = i # [Suc i..<Suc i + length ds]" by simp
    then show ?thesis using x(3) new(3) by (simp only: list.map)
  qed
  moreover have "\<forall>y \<in> set (x # new). s_presentation_id y = pid" using x(4) new(4) by simp
  moreover have "calls s' = calls s @ replicate (length (d # ds)) Execute"
    using others(3) s1(2) by (simp add: replicate_app_Cons_same)
  ultimately show ?case using others row view by metis
qed


lemma save_try_cases:
  assumes "save_try coll f on_slide pv details (new_session pool db) = (r, t)"
  shows "(\<exists>err. r = Inl err \<and> committed t = db \<and> (conn t = Unset \<longrightarrow> pending t = None))
       \<or> (\<exists>pid uid ti pr new. r = Inr (LastRowId pid) \<and>
            v_user_id pv = Some uid \<and> v_title pv = Some ti \<and> v_prompt pv = Some pr \<and>
            conn t = Opened \<and> cursor t = Opened \<and> pending t = None \<and>
            users (committed t) = users db \<and>
            presentations (committed t)
              = presentations db @ [\<lparr>p_id = pid, p_user_id = uid, p_title = ti, p_prompt = pr,
                                      p_settings = v_settings pv\<rparr>] \<and>
            slides (committed t) = slides db @ new \<and> map s_details new = details \<and>
            map s_slide_number new = map int [1..<Suc (length details)] \<and>
            (\<forall>x \<in> set new. s_presentation_id x = pid) \<and>
            calls t = (if pool then [] else [CreatePool]) @ [GetConnection, Cursor]
                        @ replicate (Suc (length details)) Execute @ [Commit])"
proof -
  obtain e1 s1 where g: "get_connection f (new_session pool db) = (e1, s1)" by fastforce
  have g1: "committed s1 = db" "pending s1 = None" "cursor s1 = Unset"
    "e1 = None \<longrightarrow> conn s1 = Opened \<and> calls s1 = (if pool then [] else [CreatePool]) @ [GetConnection]"
    "e1 \<noteq> None \<longrightarrow> conn s1 = Unset"
    using g
    by (auto simp: get_connection_def pool_get_connection_def new_session_def called_def
          split: option.splits if_splits)
  show ?thesis
  proof (cases e1)
    case (Some err)
    then have "r = Inl err" "t = s1" using assms g by (simp_all add: save_try_def)
    then show ?thesis using g1 by simp
  next
    case None
    obtain e2 s2 where c: "open_cursor f s1 = (e2, s2)" by fastforce
    have c2: "committed s2 = db" "pending s2 = None" "conn s2 = Opened"
      "e2 = None \<longrightarrow> cursor s2 = Opened \<and> calls s2 = calls s1 @ [Cursor]"
      using c g1 None by (auto simp: open_cursor_def called_def split: option.splits)
    show ?thesis
    proof (cases e2)
      case (Some err)
      then have "r = Inl err" "t = s2" using assms g None c by (simp_all add: save_try_def)
      then show ?thesis using c2 by simp
    next
      case none2: None
      obtain a3 s3 where x: "cursor_execute coll f (InsertPresentation pv) s2 = (a3, s3)"
        by fastforce
      have x3: "committed s3 = db" "conn s3 = Opened" "cursor s3 = Opened"
        "calls s3 = calls s2 @ [Execute]"
        using x c2 none2 by (auto simp: cursor_execute_def called_def split: option.splits sum.splits)
      show ?thesis
      proof (cases a3)
        case (Inl err)
        then have "r = Inl err" "t = s3" using assms g None c none2 x by (simp_all add: save_try_def)
        then show ?thesis using x3 by simp
      next
        case (Inr res)
        have run: "run_sql coll (InsertPresentation pv) db = Inr res" and p3: "pending s3 = Some (after res)"
          using x c2 Inr by (auto simp: cursor_execute_def called_def split: option.splits sum.splits)
        have view3: "in_transaction s3 = after res" using p3 by (simp add: in_transaction_def)
        obtain uid ti pr where pv: "v_user_id pv = Some uid" "v_title pv = Some ti" "v_prompt pv = Some pr"
          and res: "users (after res) = users db" "slides (after res) = slides db"
            "presentations (after res)
               = presentations db @ [\<lparr>p_id = insert_id res, p_user_id = uid, p_title = ti, p_prompt = pr,
                                       p_settings = v_settings pv\<rparr>]"
          using run by (auto simp: insert_presentation_def split: option.splits if_splits)
        obtain e4 s4 where sl: "insert_slides coll f on_slide (insert_id res) 1 details s3 = (e4, s4)"
          by fastforce
        have k4: "committed s4 = db" "conn s4 = Opened" "cursor s4 = Opened" "pending s4 \<noteq> None"
          using insert_slides_keeps[OF sl] x3 p3 by simp_all
        show ?thesis
        proof (cases e4)
          case (Some err)
          then have "r = Inl err" "t = s4"
            using assms g None c none2 x Inr sl by (simp_all add: save_try_def)
          then show ?thesis using k4 by simp
        next
          case none4: None
          from insert_slides_done[OF sl[unfolded none4]] obtain new where
            d4: "users (in_transaction s4) = users (in_transaction s3)"
              "presentations (in_transaction s4) = presentations (in_transaction s3)"
              "calls s4 = calls s3 @ replicate (length details) Execute"
              "slides (in_transaction s4) = slides (in_transaction s3) @ new"
              "map s_details new = details"
              "map s_slide_number new = map int [1..<1 + length details]"
              "\<forall>x \<in> set new. s_presentation_id x = insert_id res"
            by blast
          obtain e5 s5 where cm: "commit f s4 = (e5, s5)" by fastforce
          show ?thesis
          proof (cases e5)
            case (Some err)
            then have "r = Inl err" "t = s5"
              using assms g None c none2 x Inr sl none4 cm by (simp_all add: save_try_def)
            moreover have "committed s5 = db" "conn s5 = Opened"
              using cm Some k4 by (auto simp: commit_def called_def split: option.splits)
            ultimately show ?thesis by simp
          next
            case none5: None
            then have rt: "r = Inr (LastRowId (insert_id res))" "t = s5"
              using assms g None c none2 x Inr sl none4 cm by (simp_all add: save_try_def)
            have s5: "committed s5 = in_transaction s4" "pending s5 = None" "conn s5 = Opened"
              "cursor s5 = Opened" "calls s5 = calls s4 @ [Commit]"
              using cm none5 k4
              by (auto simp: commit_def called_def in_transaction_def split: option.splits)
            have calls: "calls s5 = (if pool then [] else [CreatePool]) @ [GetConnection, Cursor]
                        @ replicate (Suc (length details)) Execute @ [Commit]"
              using s5(5) d4(3) x3(4) c2(4) g1(4) None none2
              by (simp add: replicate_app_Cons_same)
            have "users (committed s5) = users db"
              and "presentations (committed s5)
                     = presentations db @ [\<lparr>p_id = insert_id res, p_user_id = uid, p_title = ti,
                                             p_prompt = pr, p_settings = v_settings pv\<rparr>]"
              and "slides (committed s5) = slides db @ new"
              using s5(1) d4 view3 res by simp_all
            moreover have "map s_slide_number new = map int [1..<Suc (length details)]"
              using d4(6) by simp
            ultimately show ?thesis
              using rt pv s5 d4(5) d4(7) calls by blast
          qed
        qed
      qed
    qed
  qed
qed

text \<open>
  C2. The step that stores a generated presentation ends in one of two ways, whatever
  the environment does. Either it raises, and the committed store is the one it
  started from: no presentation row and no slide row of this request is left. Or it
  returns the id of the new presentation, and the committed store has gained exactly
  that presentation and all of its slides, numbered 1, 2, ... in their order; the one
  commit comes after the last INSERT, so the presentation is never committed without
  its slides. In both cases nothing is pending and no handle is open at the end.
\<close>

theorem save_presentation_all_or_nothing:
  assumes "save_presentation coll f on_slide pv details pool db = (r, s)"
  shows "pending s = None \<and> conn s \<noteq> Opened \<and> cursor s \<noteq> Opened \<and>
    ((\<exists>err. r = Inl err \<and> committed s = db)
     \<or> (\<exists>pid uid ti pr new. r = Inr (LastRowId pid) \<and>
            v_user_id pv = Some uid \<and> v_title pv = Some ti \<and> v_prompt pv = Some pr \<and>
            users (committed s) = users db \<and>
            presentations (committed s)
              = presentations db @ [\<lparr>p_id = pid, p_user_id = uid, p_title = ti, p_prompt = pr,
                                      p_settings = v_settings pv\<rparr>] \<and>
            slides (committed s) = slides db @ new \<and> map s_details new = details \<and>
            map s_slide_number new = map int [1..<Suc (length details)] \<and>
            (\<forall>x \<in> set new. s_presentation_id x = pid) \<and>
            calls s = (if pool then [] else [CreatePool]) @ [GetConnection, Cursor]
                        @ replicate (Suc (length details)) Execute
                        @ [Commit, CursorClose, ConnClose]))"
proof -
  obtain t where t: "save_try coll f on_slide pv details (new_session pool db) = (r, t)"
    and s: "s = finally_block (except_block r t)"
    using assms by (auto simp: save_presentation_def split: prod.splits)
  have closed: "pending s = None" if "conn t = Unset \<longrightarrow> pending t = None"
    using that s
    by (cases r)
       (auto simp: finally_block_def except_block_def rollback_def cursor_close_def conn_close_def
          called_def Let_def)
  have handles: "conn s \<noteq> Opened \<and> cursor s \<noteq> Opened"
    using s
    by (cases r)
       (auto simp: finally_block_def except_block_def rollback_def cursor_close_def conn_close_def
          called_def Let_def)
  have kept: "committed s = committed t"
    using s
    by (cases r)
       (auto simp: finally_block_def except_block_def rollback_def cursor_close_def conn_close_def
          called_def Let_def)
  from save_try_cases[OF t] show ?thesis
  proof (elim disjE exE conjE)
    fix err
    assume "r = Inl err" "committed t = db" "conn t = Unset \<longrightarrow> pending t = None"
    then show ?thesis using closed handles kept by simp
  next
    fix pid uid ti pr new
    assume a: "r = Inr (LastRowId pid)" "v_user_id pv = Some uid" "v_title pv = Some ti"
      "v_prompt pv = Some pr" "conn t = Opened" "cursor t = Opened" "pending t = None"
      "users (committed t) = users db"
      "presentations (committed t)
         = presentations db @ [\<lparr>p_id = pid, p_user_id = uid, p_title = ti, p_prompt = pr,
                                 p_settings = v_settings pv\<rparr>]"
      "slides (committed t) = slides db @ new" "map s_details new = details"
      "map s_slide_number new = map int [1..<Suc (length details)]"
      "\<forall>x \<in> set new. s_presentation_id x = pid"
      "calls t = (if pool then [] else [CreatePool]) @ [GetConnection, Cursor]
                        @ replicate (Suc (length details)) Execute @ [Commit]"
    have "calls s = calls t @ [CursorClose, ConnClose]"
      using s a(1,5,6)
      by (simp add: finally_block_def except_block_def cursor_close_def conn_close_def called_def
            Let_def)
    then have "calls s = (if pool then [] else [CreatePool]) @ [GetConnection, Cursor]
                        @ replicate (Suc (length details)) Execute
                        @ [Commit, CursorClose, ConnClose]"
      using a(14) by simp
    then show ?thesis using a closed handles kept by auto
  qed
qed

theorem save_presentation_all_or_nothing_witness:
  "fst (save_presentation id no_faults never climate_values two_details True alice_store)
     = Inr (LastRowId 1) \<and>
   map p_title (presentations (committed (snd
      (save_presentation id no_faults never climate_values two_details True alice_store))))
     = [''Climate Change''] \<and>
   map s_slide_number (slides (committed (snd
      (save_presentation id no_faults never climate_values two_details True alice_store))))
     = [1, 2] \<and>
   fst (save_presentation id no_faults at_second_slide climate_values two_details True alice_store)
     = Inl ConnectionLost \<and>
   committed (snd
      (save_presentation id no_faults at_second_slide climate_values two_details True alice_store))
     = alice_store"
proof -
  have closed: "pending (snd
      (save_presentation id no_faults never climate_values two_details True alice_store)) = None"
    "pending (snd
      (save_presentation id no_faults at_second_slide climate_values two_details True alice_store)) = None"
    using save_presentation_all_or_nothing
            [of id no_faults never climate_values two_details True alice_store
                "fst (save_presentation id no_faults never climate_values two_details True alice_store)"
                "snd (save_presentation id no_faults never climate_values two_details True alice_store)"]
          save_presentation_all_or_nothing
            [of id no_faults at_second_slide climate_values two_details True alice_store
                "fst (save_presentation id no_faults at_second_slide climate_values two_details True alice_store)"
                "snd (save_presentation id no_faults at_second_slide climate_values two_details True alice_store)"]
    by simp_all
  have run: "fst (save_presentation id no_faults never climate_values two_details True alice_store)
     = Inr (LastRowId 1)"
    "map p_title (presentations (committed (snd
      (save_presentation id no_faults never climate_values two_details True alice_store))))
     = [''Climate Change'']"
    "map s_slide_number (slides (committed (snd
      (save_presentation id no_faults never climate_values two_details True alice_store))))
     = [1, 2]"
    "fst (save_presentation id no_faults at_second_slide climate_values two_details True alice_store)
     = Inl ConnectionLost"
    "committed (snd
      (save_presentation id no_faults at_second_slide climate_values two_details True alice_store))
     = alice_store"
    by (simp_all add: save_presentation_def save_try_def execute_query_defs statement_defs
          climate_values_def two_details_def no_settings_def no_details_def alice_store_def
          never_def at_second_slide_def no_faults_def)
  from closed show ?thesis
    by (intro conjI) (rule run(1), rule run(2), rule run(3), rule run(4), rule run(5))
qed

subsection \<open>Slide numbers\<close>

lemma slides_after:
  assumes "run_sql coll q db = Inr res"
  shows "(\<exists>v pid n. q = InsertSlide v \<and> v_presentation_id v = Some pid \<and> v_slide_number v = Some n \<and>
            slides (after res) = slides db @ [\<lparr>s_id = next_slide_id db, s_presentation_id = pid,
                                   s_slide_number = n, s_details = v_details v\<rparr>])
       \<or> (\<exists>sid. q = DeleteSlide sid \<and> slides (after res) = filter (\<lambda>s. s_id s \<noteq> sid) (slides db))
       \<or> (\<exists>gone. slides (after res) = filter (\<lambda>s. s_presentation_id s \<notin> gone) (slides db))"
proof (cases q)
  case (InsertSlide v)
  then show ?thesis using assms
    by (auto simp: insert_slide_def split: option.splits if_splits)
next
  case (DeleteSlide sid)
  then show ?thesis using assms by (auto simp: unchanged_def delete_slide_def)
next
  case (DeleteUser uid)
  then show ?thesis using assms
    by (auto simp: unchanged_def delete_user_def delete_presentations_def Let_def)
next
  case (DeletePresentation pid)
  then show ?thesis using assms
    by (auto simp: unchanged_def delete_presentation_def delete_presentations_def Let_def)
next
  case (InsertUser v)
  have "slides (after res) = filter (\<lambda>s. s_presentation_id s \<notin> {}) (slides db)"
    using InsertUser assms by (auto simp: insert_user_def split: option.splits if_splits)
  then show ?thesis by blast
next
  case (InsertPresentation v)
  have "slides (after res) = filter (\<lambda>s. s_presentation_id s \<notin> {}) (slides db)"
    using InsertPresentation assms by (auto simp: insert_presentation_def split: option.splits if_splits)
  then show ?thesis by blast
next
  case (SelectUserByEmail e)
  have "slides (after res) = filter (\<lambda>s. s_presentation_id s \<notin> {}) (slides db)"
    using SelectUserByEmail assms by (auto simp: unchanged_def)
  then show ?thesis by blast
next
  case (SelectPresentationsOf e)
  have "slides (after res) = filter (\<lambda>s. s_presentation_id s \<notin> {}) (slides db)"
    using SelectPresentationsOf assms by (auto simp: unchanged_def)
  then show ?thesis by blast
next
  case (SelectSlidesOf e)
  have "slides (after res) = filter (\<lambda>s. s_presentation_id s \<notin> {}) (slides db)"
    using SelectSlidesOf assms by (auto simp: unchanged_def)
  then show ?thesis by blast
qed

lemma numbered_from_one_append:
  assumes "numbered_from_one ns"
  shows "numbered_from_one (ns @ [int (length ns) + 1])"
  using assms by (auto simp: numbered_from_one_def)

lemma ordinals_ok_cascade:
  assumes "ordinals_ok db" and "slides db' = filter (\<lambda>s. s_presentation_id s \<notin> gone) (slides db)"
  shows "ordinals_ok db'"
proof -
  have "slide_numbers db' pid = slide_numbers db pid" if "pid \<notin> gone" for pid
  proof -
    have "filter (\<lambda>s. s_presentation_id s = pid) (filter (\<lambda>s. s_presentation_id s \<notin> gone) (slides db))
          = filter (\<lambda>s. s_presentation_id s = pid) (slides db)"
      using that by (induction "slides db") (auto intro: filter_cong)
    then show ?thesis by (simp add: slide_numbers_def assms(2))
  qed
  then show ?thesis using assms by (auto simp: ordinals_ok_def)
qed

lemma ordinals_ok_append:
  assumes "ordinals_ok db"
    and "slides db' = slides db @ [\<lparr>s_id = i, s_presentation_id = pid,
             s_slide_number = int (length (slide_numbers db pid)) + 1, s_details = d\<rparr>]"
  shows "ordinals_ok db'"
proof -
  have same: "slide_numbers db' p = slide_numbers db p" if "p \<noteq> pid" for p
    using that by (simp add: slide_numbers_def assms(2))
  have new: "slide_numbers db' pid = slide_numbers db pid @ [int (length (slide_numbers db pid)) + 1]"
    by (simp add: slide_numbers_def assms(2))
  have old: "numbered_from_one (slide_numbers db p)" for p
  proof (cases "p \<in> set (map s_presentation_id (slides db))")
    case True
    then show ?thesis using assms(1) by (auto simp: ordinals_ok_def)
  next
    case False
    then have "filter (\<lambda>s. s_presentation_id s = p) (slides db) = []"
      by (auto simp: filter_empty_conv)
    then show ?thesis by (simp add: slide_numbers_def numbered_from_one_def)
  qed
  have "numbered_from_one (slide_numbers db' p)" for p
  proof (cases "p = pid")
    case True
    then show ?thesis using new numbered_from_one_append[OF old[of pid]] by simp
  next
    case False
    then show ?thesis using same old by simp
  qed
  then show ?thesis by (simp add: ordinals_ok_def)
qed

text \<open>
  C6, as the code has it. What the \<^verbatim>\<open>slides\<close> table enforces of the numbering is that
  \<^verbatim>\<open>slide_number\<close> is not NULL. Numbers that are unique and contiguous from 1 in
  every presentation stay so under an INSERT that takes the next free position of its
  presentation, under inserts into the other tables, under the cascading deletes of
  presentations and users, and under reads.
\<close>

theorem slide_numbers_kept_by_appending:
  assumes "ordinals_ok db" and "run_sql coll q db = Inr res" and "keeps_numbering db q"
  shows "ordinals_ok (after res)"
  using slides_after[OF assms(2)]
proof (elim disjE exE conjE)
  fix v pid n
  assume q: "q = InsertSlide v" "v_presentation_id v = Some pid" "v_slide_number v = Some n"
    and sl: "slides (after res) = slides db @ [\<lparr>s_id = next_slide_id db, s_presentation_id = pid,
                                   s_slide_number = n, s_details = v_details v\<rparr>]"
  from q assms(3) have "n = int (length (slide_numbers db pid)) + 1" by simp
  with sl show ?thesis using ordinals_ok_append[OF assms(1)] by blast
next
  fix sid assume "q = DeleteSlide sid"
  with assms(3) show "slides (after res) = filter (\<lambda>s. s_id s \<noteq> sid) (slides db) \<Longrightarrow> ?thesis" by simp
next
  fix gone assume "slides (after res) = filter (\<lambda>s. s_presentation_id s \<notin> gone) (slides db)"
  then show ?thesis using ordinals_ok_cascade[OF assms(1)] by blast
qed

theorem slide_numbers_kept_by_appending_witness:
  "ordinals_ok climate_store \<and> keeps_numbering climate_store (InsertSlide (slide_values_at 1 2)) \<and>
   run_sql id (InsertSlide (slide_values_at 1 2)) climate_store
     = Inr (projr (run_sql id (InsertSlide (slide_values_at 1 2)) climate_store)) \<and>
   ordinals_ok (after (projr (run_sql id (InsertSlide (slide_values_at 1 2)) climate_store)))"
proof -
  have ok: "ordinals_ok climate_store"
    by (simp add: ordinals_ok_def slide_numbers_def numbered_from_one_def climate_store_def slide_values_at_def no_settings_def no_details_def)
  have keeps: "keeps_numbering climate_store (InsertSlide (slide_values_at 1 2))"
    by (simp add: slide_numbers_def climate_store_def slide_values_at_def no_settings_def no_details_def)
  have runs: "run_sql id (InsertSlide (slide_values_at 1 2)) climate_store
     = Inr (projr (run_sql id (InsertSlide (slide_values_at 1 2)) climate_store))"
    by (simp add: statement_defs climate_store_def slide_values_at_def no_settings_def no_details_def)
  show ?thesis
    using ok keeps runs slide_numbers_kept_by_appending[OF ok runs keeps] by simp
qed

text \<open>
  The claim as stated asks that every operation that creates slides keeps the numbers
  unique. The first presentation of the sample store has one slide, numbered 1; an
  INSERT of a second slide numbered 1 is accepted.
\<close>

theorem duplicate_slide_number_counterexample:
  "ordinals_ok climate_store \<and>
   run_sql id (InsertSlide (slide_values_at 1 1)) climate_store
     = Inr \<lparr>after = duplicate_store, insert_id = 3, result_set = []\<rparr> \<and>
   slide_numbers duplicate_store 1 = [1, 1] \<and>
   \<not> ordinals_ok duplicate_store"
proof -
  have "ordinals_ok climate_store"
    by (simp add: ordinals_ok_def slide_numbers_def numbered_from_one_def climate_store_def slide_values_at_def no_settings_def no_details_def)
  moreover have "run_sql id (InsertSlide (slide_values_at 1 1)) climate_store
     = Inr \<lparr>after = duplicate_store, insert_id = 3, result_set = []\<rparr>"
    by (simp add: statement_defs climate_store_def slide_values_at_def no_settings_def no_details_def duplicate_store_def)
  moreover have "slide_numbers duplicate_store 1 = [1, 1]"
    by (simp add: slide_numbers_def climate_store_def slide_values_at_def no_settings_def no_details_def duplicate_store_def)
  moreover have "\<not> ordinals_ok duplicate_store"
    by (simp add: ordinals_ok_def slide_numbers_def numbered_from_one_def 
          climate_store_def slide_values_at_def no_settings_def no_details_def duplicate_store_def)
  ultimately show ?thesis by simp
qed

subsection \<open>Deleting a user\<close>

text \<open>
  C7. \<^verbatim>\<open>DELETE FROM users WHERE id = %s\<close> always goes through when the environment
  raises nothing, and whenever the call returns, the committed store holds no user
  with that id, no presentation of that user, and no slide of a presentation that the
  user owned; the users and presentations of everybody else are still there.
\<close>

theorem delete_user_cascades:
  "(\<exists>v s. execute_query coll no_faults (DeleteUser uid) False pool db = (Inr v, s)) \<and>
   (\<forall>f v s. execute_query coll f (DeleteUser uid) False pool db = (Inr v, s) \<longrightarrow>
      (\<forall>u \<in> set (users (committed s)). u_id u \<noteq> uid) \<and>
      (\<forall>p \<in> set (presentations (committed s)). p_user_id p \<noteq> uid) \<and>
      (\<forall>sl \<in> set (slides (committed s)). \<forall>p \<in> set (presentations db).
          p_user_id p = uid \<longrightarrow> s_presentation_id sl \<noteq> p_id p) \<and>
      (\<forall>u \<in> set (users db). u_id u \<noteq> uid \<longrightarrow> u \<in> set (users (committed s))) \<and>
      (\<forall>p \<in> set (presentations db). p_user_id p \<noteq> uid \<longrightarrow> p \<in> set (presentations (committed s))))"
proof (intro conjI allI impI)
  show "\<exists>v s. execute_query coll no_faults (DeleteUser uid) False pool db = (Inr v, s)"
    using execute_query_no_faults[where q = "DeleteUser uid" and coll = coll and db = db and pool = pool]
    by auto
next
  fix f v s
  assume "execute_query coll f (DeleteUser uid) False pool db = (Inr v, s)"
  then have c: "committed s = delete_user uid db"
    using execute_query_returns[where q = "DeleteUser uid" and coll = coll and db = db and s = s]
    by (auto simp: unchanged_def)
  show "\<forall>u \<in> set (users (committed s)). u_id u \<noteq> uid"
    by (simp add: c delete_user_def)
  show "\<forall>p \<in> set (presentations (committed s)). p_user_id p \<noteq> uid"
    by (simp add: c delete_user_def delete_presentations_def Let_def)
  show "\<forall>sl \<in> set (slides (committed s)). \<forall>p \<in> set (presentations db).
          p_user_id p = uid \<longrightarrow> s_presentation_id sl \<noteq> p_id p"
    by (auto simp: c delete_user_def delete_presentations_def Let_def)
  show "\<forall>u \<in> set (users db). u_id u \<noteq> uid \<longrightarrow> u \<in> set (users (committed s))"
    by (simp add: c delete_user_def)
  show "\<forall>p \<in> set (presentations db). p_user_id p \<noteq> uid \<longrightarrow> p \<in> set (presentations (committed s))"
    by (simp add: c delete_user_def delete_presentations_def Let_def)
qed

theorem delete_user_cascades_witness:
  "fst (execute_query id no_faults (DeleteUser 1) False True climate_store) = Inr (LastRowId 0) \<and>
   map u_id (users (committed (snd (execute_query id no_faults (DeleteUser 1) False True climate_store)))) = [2] \<and>
   map p_user_id (presentations (committed (snd (execute_query id no_faults (DeleteUser 1) False True climate_store)))) = [2] \<and>
   map s_presentation_id (slides (committed (snd (execute_query id no_faults (DeleteUser 1) False True climate_store)))) = [2]"
proof -
  have returned: "fst (execute_query id no_faults (DeleteUser 1) False True climate_store) = Inr (LastRowId 0)"
    by (simp add: execute_query_defs statement_defs climate_store_def no_settings_def
        no_details_def no_faults_def)
  then have run: "execute_query id no_faults (DeleteUser 1) False True climate_store
               = (Inr (LastRowId 0), snd (execute_query id no_faults (DeleteUser 1) False True climate_store))"
    by (metis prod.collapse)
  have gone: "\<forall>u \<in> set (users (committed (snd (execute_query id no_faults (DeleteUser 1) False True climate_store)))).
                u_id u \<noteq> 1"
    using delete_user_cascades[of id 1 True climate_store] run by blast
  have left: "map u_id (users (committed (snd (execute_query id no_faults (DeleteUser 1) False True climate_store)))) = [2]"
    "map p_user_id (presentations (committed (snd (execute_query id no_faults (DeleteUser 1) False True climate_store)))) = [2]"
    "map s_presentation_id (slides (committed (snd (execute_query id no_faults (DeleteUser 1) False True climate_store)))) = [2]"
    by (simp_all add: execute_query_defs statement_defs climate_store_def no_settings_def
        no_details_def no_faults_def
        del: set_filter)
  from gone show ?thesis
    by (intro conjI) (rule returned, rule left(1), rule left(2), rule left(3))
qed

section \<open>Properties of owner-only access\<close>









section \<open>Properties of the generation orchestrator\<close>



text \<open>
  C3. No backend is called twice. When the request is valid and the primary backend
  fails or returns malformed output (an answer of another length than requested
  counts as such), the secondary backend is called once, after the primary; its slides are the result, or the generation failure if it fails as well.
  When the primary backend answers well, the secondary is not called. Storing does not
  retry either: \<^verbatim>\<open>execute_query\<close> makes each of its calls into the connector at most
  once.
\<close>

theorem generate_slides_falls_back_once:
  "distinct (snd (generate_slides primary secondary r)) \<and>
   (valid_request r \<and> normalise r (primary r) = None \<longrightarrow>
      snd (generate_slides primary secondary r) = [Primary, Secondary] \<and>
      fst (generate_slides primary secondary r)
        = (case normalise r (secondary r) of None \<Rightarrow> Inl APIError | Some objs \<Rightarrow> Inr objs)) \<and>
   (normalise r (primary r) \<noteq> None \<longrightarrow> Secondary \<notin> set (snd (generate_slides primary secondary r))) \<and>
   distinct (calls (snd (execute_query coll f query fetch pool db)))"
proof -
  have "distinct (calls (snd (execute_query coll f query fetch pool db)))"
    by (auto simp: execute_query_defs Let_def split: option.splits sum.splits if_splits)
  then show ?thesis
    by (simp add: generate_slides_def split: option.splits)
qed

theorem generate_slides_falls_back_once_witness:
  "valid_request climate_request \<and> normalise climate_request (down_backend climate_request) = None \<and>
   generate_slides down_backend full_backend climate_request = (Inr five_slides, [Primary, Secondary]) \<and>
   generate_slides down_backend down_backend climate_request = (Inl APIError, [Primary, Secondary]) \<and>
   generate_slides full_backend down_backend climate_request = (Inr five_slides, [Primary])"
  using generate_slides_falls_back_once[of down_backend full_backend climate_request]
    generate_slides_falls_back_once[of down_backend down_backend climate_request]
    generate_slides_falls_back_once[of full_backend down_backend climate_request]
  by (simp add: generate_slides_def climate_request_def five_slides_def full_backend_def
        down_backend_def valid_request_def well_formed_slide_def)

text \<open>
  C4. A request whose slide count is below 3 or above 20 is rejected with the
  validation error, and no backend has been called. The operation has no access to
  the store.
\<close>

theorem generate_slides_rejects_count:
  assumes "slides_count r < 3 \<or> 20 < slides_count r"
  shows "generate_slides primary secondary r = (Inl ValueError, [])"
  using assms by (auto simp: generate_slides_def valid_request_def)

theorem generate_slides_rejects_count_witness:
  "20 < slides_count (climate_request\<lparr>slides_count := 25\<rparr>) \<and>
   generate_slides short_backend short_backend (climate_request\<lparr>slides_count := 25\<rparr>) = (Inl ValueError, [])"
  using generate_slides_rejects_count[of "climate_request\<lparr>slides_count := 25\<rparr>" short_backend short_backend]
  by (simp add: climate_request_def short_backend_def)

end
